theory Spec2Isabelle
  imports Complex_Main "HOL-Library.Multiset"
begin

section \<open>OHLC aggregation (\<^verbatim>\<open>create_candlestick_chart\<close>)\<close>

text \<open>
  A row of the data frame built from \<^verbatim>\<open>extract_game_data\<close>: the calendar day (as a day
  number), the rating and the naive local timestamp (in seconds). The columns
  \<^verbatim>\<open>year\<close> and \<^verbatim>\<open>month\<close> of the source rows are never read and are left out.
  Days and timestamps are taken to lie in the range that pandas represents, and ratings to
  be integers that a float column holds exactly.
\<close>

record observation =
  date :: int
  rating :: int
  timestamp :: int

text \<open>A row of \<^verbatim>\<open>ohlc_df\<close>, the result of the grouped aggregation.\<close>

record daily_bar =
  bar_date :: int
  bar_open :: int
  bar_high :: int
  bar_low :: int
  bar_close :: int

text \<open>
  A row of \<^verbatim>\<open>ohlc_complete\<close>: after the left merge the four value columns may hold NaN,
  which is \<open>None\<close> here.
\<close>

record ohlc_row =
  row_date :: int
  row_open :: "int option"
  row_high :: "int option"
  row_low :: "int option"
  row_close :: "int option"

record figure =
  candles :: "ohlc_row list"
  title :: string

text \<open>
  \<^verbatim>\<open>df.sort_values('timestamp')\<close>. The order pandas gives to rows with equal timestamps is
  not fixed by its default sorting algorithm; the model keeps them in input order.
\<close>

definition sort_values :: "observation list \<Rightarrow> observation list" where
  "sort_values df = sort_key timestamp df"

text \<open>
  The named aggregation \<^verbatim>\<open>first / max / min / last\<close> over the ratings of one group, in row
  order. A group has at least one row; no group gives no row.
\<close>

definition agg :: "int \<Rightarrow> int list \<Rightarrow> daily_bar list" where
  "agg d g = (case g of
       [] \<Rightarrow> []
     | r # rs \<Rightarrow> [\<lparr>bar_date = d, bar_open = r, bar_high = fold max rs r,
                  bar_low = fold min rs r, bar_close = last (r # rs)\<rparr>])"

text \<open>
  \<^verbatim>\<open>df.groupby('date')['rating'].agg([...]).reset_index()\<close>: one row per distinct date, the
  group keys sorted ascending, the rows of a group in the order they have in \<open>df\<close>.
\<close>

definition groupby_agg :: "observation list \<Rightarrow> daily_bar list" where
  "groupby_agg df =
     concat (map (\<lambda>d. agg d (map rating (filter (\<lambda>ob. date ob = d) df)))
                 (sorted_list_of_set (set (map date df))))"

text \<open>\<^verbatim>\<open>pd.date_range(start, end, freq='D')\<close>: every day from start to end, both included.\<close>

definition date_range :: "int \<Rightarrow> int \<Rightarrow> int list" where
  "date_range start stop = [start..stop]"

text \<open>
  \<^verbatim>\<open>ohlc_complete.merge(ohlc_df, on='date', how='left')\<close>. The dates of \<^verbatim>\<open>ohlc_df\<close> are
  distinct, so a day matches at most one row.
\<close>

definition merge_left :: "int list \<Rightarrow> daily_bar list \<Rightarrow> ohlc_row list" where
  "merge_left all_dates ohlc_df =
     map (\<lambda>d. case find (\<lambda>b. bar_date b = d) ohlc_df of
                 None \<Rightarrow> \<lparr>row_date = d, row_open = None, row_high = None,
                          row_low = None, row_close = None\<rparr>
               | Some b \<Rightarrow> \<lparr>row_date = d, row_open = Some (bar_open b),
                            row_high = Some (bar_high b), row_low = Some (bar_low b),
                            row_close = Some (bar_close b)\<rparr>)
         all_dates"

text \<open>\<^verbatim>\<open>Series.ffill()\<close>: a missing value takes the last value seen before it, if any.\<close>

fun ffill_from :: "'a option \<Rightarrow> 'a option list \<Rightarrow> 'a option list" where
  "ffill_from prev [] = []"
| "ffill_from prev (None # xs) = prev # ffill_from prev xs"
| "ffill_from prev (Some v # xs) = Some v # ffill_from (Some v) xs"

definition ffill :: "'a option list \<Rightarrow> 'a option list" where
  "ffill xs = ffill_from None xs"

text \<open>
  The four masked assignments: on a row whose \<^verbatim>\<open>open\<close> is missing, all four columns take
  the row's \<^verbatim>\<open>close_ffill\<close>.
\<close>

definition fill_missing :: "ohlc_row \<Rightarrow> int option \<Rightarrow> ohlc_row" where
  "fill_missing r close_ffill =
     (if row_open r = None
      then r\<lparr>row_open := close_ffill, row_high := close_ffill,
             row_low := close_ffill, row_close := close_ffill\<rparr>
      else r)"

text \<open>
  \<^verbatim>\<open>str.title()\<close> on ASCII text: a letter that follows a letter is lower-cased, any other
  letter is upper-cased.
\<close>

definition is_upper :: "char \<Rightarrow> bool" where
  "is_upper c = ((65::nat) \<le> of_char c \<and> of_char c \<le> (90::nat))"

definition is_lower :: "char \<Rightarrow> bool" where
  "is_lower c = ((97::nat) \<le> of_char c \<and> of_char c \<le> (122::nat))"

definition lower_char :: "char \<Rightarrow> char" where
  "lower_char c = (if is_upper c then char_of (of_char c + (32::nat)) else c)"

definition upper_char :: "char \<Rightarrow> char" where
  "upper_char c = (if is_lower c then char_of (of_char c - (32::nat)) else c)"

definition lower :: "string \<Rightarrow> string" where
  "lower s = map lower_char s"

fun title_from :: "bool \<Rightarrow> string \<Rightarrow> string" where
  "title_from prev_cased [] = []"
| "title_from prev_cased (c # cs) =
     (if is_upper c \<or> is_lower c
      then (if prev_cased then lower_char c else upper_char c) # title_from True cs
      else c # title_from False cs)"

definition str_title :: "string \<Rightarrow> string" where
  "str_title s = title_from False s"

definition create_candlestick_chart :: "observation list \<Rightarrow> string \<Rightarrow> figure option" where
  "create_candlestick_chart df time_control =
     (if df = [] then None
      else
        let df = sort_values df;
            ohlc_df = groupby_agg df
        in if ohlc_df = [] then None
           else
             let all_dates = date_range (Min (set (map bar_date ohlc_df)))
                                        (Max (set (map bar_date ohlc_df)));
                 ohlc_complete = merge_left all_dates ohlc_df;
                 close_ffill = ffill (map row_close ohlc_complete);
                 ohlc_complete = map2 fill_missing ohlc_complete close_ffill
             in Some \<lparr>candles = ohlc_complete,
                      title = str_title time_control @ '' Rating History''\<rparr>)"


section \<open>The result cache (\<^verbatim>\<open>SimpleCache\<close>)\<close>

text \<open>
  The dictionary \<^verbatim>\<open>self.cache\<close> maps a key to the pair of the stored value and the clock
  reading at insertion. The reading of \<^verbatim>\<open>time.time()\<close> is an argument \<open>now\<close> of each
  operation. Python's \<^verbatim>\<open>None\<close> result of \<^verbatim>\<open>get\<close> is \<open>None\<close>; the updated object is
  returned with it.
\<close>

record 'v simple_cache =
  cache :: "string \<rightharpoonup> ('v \<times> real)"
  timeout :: real

definition SimpleCache_init :: "real \<Rightarrow> 'v simple_cache" where
  "SimpleCache_init t = \<lparr>cache = Map.empty, timeout = t\<rparr>"

definition SimpleCache_get :: "real \<Rightarrow> string \<Rightarrow> 'v simple_cache \<Rightarrow> 'v option \<times> 'v simple_cache" where
  "SimpleCache_get now key self =
     (case cache self key of
        Some (v, inserted) \<Rightarrow>
          if now - inserted < timeout self then (Some v, self)
          else (None, self\<lparr>cache := (cache self)(key := None)\<rparr>)
      | None \<Rightarrow> (None, self))"

definition SimpleCache_set :: "real \<Rightarrow> string \<Rightarrow> 'v \<Rightarrow> 'v simple_cache \<Rightarrow> 'v simple_cache" where
  "SimpleCache_set now key v self = self\<lparr>cache := (cache self)(key \<mapsto> (v, now))\<rparr>"

text \<open>The module-level instance \<^verbatim>\<open>cache = SimpleCache(timeout=300)\<close>, holding chart HTML.\<close>

definition initial_cache :: "string simple_cache" where
  "initial_cache = SimpleCache_init 300"

section \<open>Strings and numbers\<close>

text \<open>
  Strings are ASCII text; a character outside ASCII is neither a letter, a digit nor white
  space here.
\<close>

definition is_space :: "char \<Rightarrow> bool" where
  "is_space c = (of_char c \<in> {9, 10, 11, 12, 13, 28, 29, 30, 31, 32 :: nat})"

definition strip :: "string \<Rightarrow> string" where
  "strip s = rev (dropWhile is_space (rev (dropWhile is_space s)))"

definition is_digit :: "char \<Rightarrow> bool" where
  "is_digit c = ((48::nat) \<le> of_char c \<and> of_char c \<le> (57::nat))"

definition digit_val :: "char \<Rightarrow> int" where
  "digit_val c = int (of_char c) - 48"

text \<open>\<^verbatim>\<open>str.split(sep)\<close> for a one-character separator: never an empty list.\<close>

fun split_on :: "char \<Rightarrow> string \<Rightarrow> string list" where
  "split_on sep [] = [[]]"
| "split_on sep (c # cs) =
     (if c = sep then [] # split_on sep cs
      else case split_on sep cs of
             w # ws \<Rightarrow> (c # w) # ws
           | [] \<Rightarrow> [[c]])"

text \<open>
  \<^verbatim>\<open>int(s)\<close> on a string: white space around, an optional sign, then decimal digits, where
  single underscores may separate digits. \<open>None\<close> stands for \<^verbatim>\<open>ValueError\<close>. The limit that
  recent Python versions put on the number of digits is not modelled.
\<close>

fun digits_from :: "int \<Rightarrow> string \<Rightarrow> int option" where
  "digits_from acc [] = Some acc"
| "digits_from acc (c # cs) =
     (if is_digit c then digits_from (10 * acc + digit_val c) cs
      else if c = CHR ''_'' then
        (case cs of
           [] \<Rightarrow> None
         | d # ds \<Rightarrow> if is_digit d then digits_from acc cs else None)
      else None)"

definition unsigned_int :: "string \<Rightarrow> int option" where
  "unsigned_int s =
     (case s of
        [] \<Rightarrow> None
      | c # cs \<Rightarrow> if is_digit c then digits_from (digit_val c) cs else None)"

definition py_int :: "string \<Rightarrow> int option" where
  "py_int s =
     (case strip s of
        [] \<Rightarrow> None
      | c # cs \<Rightarrow>
          if c = CHR ''-'' then map_option uminus (unsigned_int cs)
          else if c = CHR ''+'' then unsigned_int cs
          else unsigned_int (c # cs))"

text \<open>\<^verbatim>\<open>str(n)\<close> and the format \<^verbatim>\<open>{n:02d}\<close> of an integer.\<close>

fun str_nat :: "nat \<Rightarrow> string" where
  "str_nat n =
     (if n < 10 then [char_of (48 + n)]
      else str_nat (n div 10) @ [char_of (48 + n mod 10)])"

definition str_int :: "int \<Rightarrow> string" where
  "str_int i = (if i < 0 then CHR ''-'' # str_nat (nat (- i)) else str_nat (nat i))"

definition format_02d :: "int \<Rightarrow> string" where
  "format_02d i = (let s = str_int i in if length s < 2 then CHR ''0'' # s else s)"

section \<open>Upstream API\<close>

text \<open>
  The exceptions that reach \<^verbatim>\<open>fetch_and_process_games\<close>. \<open>ValueError\<close> also stands for the
  \<^verbatim>\<open>OverflowError\<close> and \<^verbatim>\<open>OSError\<close> of a timestamp outside the platform's range: the
  program treats them alike.
\<close>

datatype exc = ChessAPIError string | KeyError | IndexError | ValueError

text \<open>
  The JSON documents of the API, typed: every field read with \<^verbatim>\<open>.get\<close> is optional.
  A decoded body is an object that may have the keys \<^verbatim>\<open>archives\<close> and \<^verbatim>\<open>games\<close>; the
  profile document is kept as it is and never inspected.
\<close>

record player =
  player_username :: "string option"
  player_rating :: "int option"

record game =
  white :: "player option"
  black :: "player option"
  end_time :: "int option"
  time_class :: "string option"

record json_body =
  archives :: "string list option"
  games :: "game list option"

text \<open>
  The outcome of \<^verbatim>\<open>session.get\<close>: a response with a status code and a body, or a
  \<^verbatim>\<open>RequestException\<close> (a timeout, a connection failure, retries exhausted) with its text.
  The upstream service is a function from the URL to the outcome; the session records the
  URLs it was asked for.
\<close>

datatype http_result = Response int json_body | RequestException string

record session_state =
  profile_cache :: "(string \<times> json_body) list"
  request_log :: "string list"

definition CHESS_API_BASE :: string where
  "CHESS_API_BASE = ''https://api.chess.com/pub/player''"

definition MAX_WORKERS :: nat where
  "MAX_WORKERS = 10"

definition session_get ::
  "(string \<Rightarrow> http_result) \<Rightarrow> string \<Rightarrow> session_state \<Rightarrow> http_result \<times> session_state" where
  "session_get upstream url st = (upstream url, st\<lparr>request_log := request_log st @ [url]\<rparr>)"

definition validate_username :: "string \<Rightarrow> bool" where
  "validate_username username =
     (if username = [] \<or> length username < 2 \<or> length username > 30 then False
      else
        let body = (if last username = CHR 0x0A then butlast username else username)
        in body \<noteq> [] \<and>
           list_all (\<lambda>c. is_lower c \<or> is_upper c \<or> is_digit c \<or> c = CHR ''_'' \<or> c = CHR ''-'') body)"

text \<open>The body of \<^verbatim>\<open>get_user_profile\<close>, and the function under \<^verbatim>\<open>lru_cache(maxsize=128)\<close>:
  a returned profile is remembered (most recently used first), a raised exception is not.\<close>

definition profile_url :: "string \<Rightarrow> string" where
  "profile_url username = CHESS_API_BASE @ ''/'' @ username"

definition get_user_profile_body ::
  "(string \<Rightarrow> http_result) \<Rightarrow> string \<Rightarrow> session_state \<Rightarrow> (exc + json_body) \<times> session_state" where
  "get_user_profile_body upstream username st =
     (case session_get upstream (profile_url username) st of
        (Response status_code body, st') \<Rightarrow>
          if status_code = 200 then (Inr body, st')
          else if status_code = 404 then (Inl (ChessAPIError ''User not found''), st')
          else (Inl (ChessAPIError (''API error: '' @ str_int status_code)), st')
      | (RequestException e, st') \<Rightarrow> (Inl (ChessAPIError (''Network error: '' @ e)), st'))"

definition get_user_profile ::
  "(string \<Rightarrow> http_result) \<Rightarrow> string \<Rightarrow> session_state \<Rightarrow> (exc + json_body) \<times> session_state" where
  "get_user_profile upstream username st =
     (case map_of (profile_cache st) username of
        Some profile \<Rightarrow>
          (Inr profile,
           st\<lparr>profile_cache :=
                (username, profile) # filter (\<lambda>kv. fst kv \<noteq> username) (profile_cache st)\<rparr>)
      | None \<Rightarrow>
          (case get_user_profile_body upstream username st of
             (Inl e, st') \<Rightarrow> (Inl e, st')
           | (Inr profile, st') \<Rightarrow>
               (Inr profile,
                st'\<lparr>profile_cache := take 128 ((username, profile) # profile_cache st')\<rparr>)))"

text \<open>\<^verbatim>\<open>get_user_archives\<close>: the loop over the archive URLs stops at the first exception.\<close>

definition parse_archive :: "string \<Rightarrow> exc + (int \<times> int)" where
  "parse_archive archive =
     (let parts = split_on CHR ''/'' archive
      in if length parts < 2 then Inl IndexError
         else case py_int (parts ! (length parts - 2)) of
                None \<Rightarrow> Inl ValueError
              | Some year \<Rightarrow>
                  (case py_int (parts ! (length parts - 1)) of
                     None \<Rightarrow> Inl ValueError
                   | Some month \<Rightarrow> Inr (year, month)))"

fun parse_archives :: "string list \<Rightarrow> exc + (int \<times> int) list" where
  "parse_archives [] = Inr []"
| "parse_archives (archive # rest) =
     (case parse_archive archive of
        Inl e \<Rightarrow> Inl e
      | Inr ym \<Rightarrow> (case parse_archives rest of Inl e \<Rightarrow> Inl e | Inr months \<Rightarrow> Inr (ym # months)))"

definition archives_url :: "string \<Rightarrow> string" where
  "archives_url username = CHESS_API_BASE @ ''/'' @ username @ ''/games/archives''"

definition get_user_archives ::
  "(string \<Rightarrow> http_result) \<Rightarrow> string \<Rightarrow> session_state \<Rightarrow> (exc + (int \<times> int) list) \<times> session_state" where
  "get_user_archives upstream username st =
     (case session_get upstream (archives_url username) st of
        (Response status_code body, st') \<Rightarrow>
          if status_code = 200
          then (parse_archives (case archives body of None \<Rightarrow> [] | Some a \<Rightarrow> a), st')
          else (Inr [], st')
      | (RequestException e, st') \<Rightarrow> (Inr [], st'))"

text \<open>\<^verbatim>\<open>get_single_month_games\<close>, on the tuple \<^verbatim>\<open>(username, year, month, time_class)\<close>.\<close>

definition month_url :: "string \<Rightarrow> int \<Rightarrow> int \<Rightarrow> string" where
  "month_url username year month =
     CHESS_API_BASE @ ''/'' @ username @ ''/games/'' @ str_int year @ ''/'' @ format_02d month"

definition get_single_month_games ::
  "(string \<Rightarrow> http_result) \<Rightarrow> string \<times> int \<times> int \<times> string \<Rightarrow> session_state
     \<Rightarrow> game list \<times> session_state" where
  "get_single_month_games upstream args st =
     (case args of (username, year, month, tc) \<Rightarrow>
        (case session_get upstream (month_url username year month) st of
           (Response status_code body, st') \<Rightarrow>
             if status_code = 200
             then (filter (\<lambda>g. time_class g = Some tc)
                          (case games body of None \<Rightarrow> [] | Some gs \<Rightarrow> gs), st')
             else ([], st')
         | (RequestException e, st') \<Rightarrow> ([], st')))"


section \<open>Observation extraction (\<^verbatim>\<open>extract_game_data\<close>)\<close>

text \<open>
  \<^verbatim>\<open>datetime.datetime.fromtimestamp(end_time)\<close> gives the naive local time. The local
  time zone is the argument \<open>utcoffset\<close>, the offset in seconds in force at an instant. The
  result is in seconds since 1970-01-01 00:00 local time and must lie in the years 1 to
  9999 (the check made on Linux); its calendar day \<^verbatim>\<open>ts.date()\<close> is the whole number of
  days in it.
\<close>

definition fromtimestamp :: "(int \<Rightarrow> int) \<Rightarrow> int \<Rightarrow> exc + int" where
  "fromtimestamp utcoffset t =
     (let ts = t + utcoffset t
      in if ts < - 62135596800 \<or> 253402300800 \<le> ts then Inl ValueError else Inr ts)"

text \<open>One pass of the loop body: an exception, no row, or the row appended to \<^verbatim>\<open>data\<close>.\<close>

definition extract_row :: "(int \<Rightarrow> int) \<Rightarrow> string \<Rightarrow> game \<Rightarrow> exc + observation option" where
  "extract_row utcoffset username_lower g =
     (let white_username =
            lower (case white g of
                     None \<Rightarrow> []
                   | Some p \<Rightarrow> (case player_username p of None \<Rightarrow> [] | Some u \<Rightarrow> u))
      in case (if white_username = username_lower then white g else black g) of
           None \<Rightarrow> Inl KeyError
         | Some player_data \<Rightarrow>
             (case end_time g of
                None \<Rightarrow> Inr None
              | Some t \<Rightarrow>
                  if t = 0 then Inr None
                  else (case fromtimestamp utcoffset t of
                          Inl e \<Rightarrow> Inl e
                        | Inr ts \<Rightarrow>
                            Inr (Some \<lparr>date = ts div 86400,
                                       rating = (case player_rating player_data of
                                                   None \<Rightarrow> 0 | Some r \<Rightarrow> r),
                                       timestamp = ts\<rparr>))))"

fun extract_rows :: "(int \<Rightarrow> int) \<Rightarrow> string \<Rightarrow> game list \<Rightarrow> exc + observation list" where
  "extract_rows utcoffset username_lower [] = Inr []"
| "extract_rows utcoffset username_lower (g # gs) =
     (case extract_row utcoffset username_lower g of
        Inl e \<Rightarrow> Inl e
      | Inr row \<Rightarrow>
          (case extract_rows utcoffset username_lower gs of
             Inl e \<Rightarrow> Inl e
           | Inr data \<Rightarrow> Inr ((case row of None \<Rightarrow> [] | Some r \<Rightarrow> [r]) @ data)))"

definition extract_game_data :: "(int \<Rightarrow> int) \<Rightarrow> game list \<Rightarrow> string \<Rightarrow> exc + observation list" where
  "extract_game_data utcoffset gs username =
     (if gs = [] then Inr [] else extract_rows utcoffset (lower username) gs)"

section \<open>The orchestrator (\<^verbatim>\<open>fetch_and_process_games\<close>)\<close>

text \<open>
  The pool maps \<^verbatim>\<open>get_single_month_games\<close> over the requests and the results are joined in
  the order of the requests, whatever the order of completion.
\<close>

fun fetch_months ::
  "(string \<Rightarrow> http_result) \<Rightarrow> (string \<times> int \<times> int \<times> string) list \<Rightarrow> session_state
     \<Rightarrow> game list \<times> session_state" where
  "fetch_months upstream [] st = ([], st)"
| "fetch_months upstream (a # rest) st =
     (case get_single_month_games upstream a st of
        (result, st') \<Rightarrow>
          (case fetch_months upstream rest st' of
             (all_games, st'') \<Rightarrow> (result @ all_games, st'')))"

text \<open>The body of the \<^verbatim>\<open>try\<close> block: the returned pair, or the exception raised.\<close>

definition process ::
  "(string \<Rightarrow> http_result) \<Rightarrow> (int \<Rightarrow> int) \<Rightarrow> string \<Rightarrow> string \<Rightarrow> session_state
     \<Rightarrow> (exc + (figure option \<times> string option)) \<times> session_state" where
  "process upstream utcoffset username time_control st =
     (case get_user_profile upstream username st of
        (Inl e, st1) \<Rightarrow> (Inl e, st1)
      | (Inr user_profile, st1) \<Rightarrow>
          (case get_user_archives upstream username st1 of
             (Inl e, st2) \<Rightarrow> (Inl e, st2)
           | (Inr months, st2) \<Rightarrow>
               if months = [] then (Inr (None, Some ''No games found for this user.''), st2)
               else
                 let month_requests = map (\<lambda>(year, month). (username, year, month, time_control)) months
                 in case fetch_months upstream month_requests st2 of
                      (all_games, st3) \<Rightarrow>
                        (case extract_game_data utcoffset all_games username of
                           Inl e \<Rightarrow> (Inl e, st3)
                         | Inr game_data \<Rightarrow>
                             if game_data = []
                             then (Inr (None, Some (''No '' @ time_control @ '' games found for ''
                                                     @ username @ ''.'')), st3)
                             else (case create_candlestick_chart game_data time_control of
                                     Some fig \<Rightarrow> (Inr (Some fig, None), st3)
                                   | None \<Rightarrow> (Inr (None, Some ''Failed to create chart.''), st3)))))"

definition fetch_and_process_games ::
  "(string \<Rightarrow> http_result) \<Rightarrow> (int \<Rightarrow> int) \<Rightarrow> string \<Rightarrow> string \<Rightarrow> session_state
     \<Rightarrow> (figure option \<times> string option) \<times> session_state" where
  "fetch_and_process_games upstream utcoffset username time_control st =
     (case process upstream utcoffset username time_control st of
        (Inr result, st') \<Rightarrow> (result, st')
      | (Inl (ChessAPIError msg), st') \<Rightarrow> ((None, Some msg), st')
      | (Inl _, st') \<Rightarrow> ((None, Some ''An unexpected error occurred.''), st'))"

section \<open>The request handler (\<^verbatim>\<open>index\<close>)\<close>

text \<open>
  What the handler renders: \<^verbatim>\<open>index.html\<close> with or without an error text,
  \<^verbatim>\<open>chart.html\<close> with the user name, the time control and the chart, or the rejection of a
  form that lacks a field.
\<close>

datatype page = Index_html "string option" | Chart_html string string string | Bad_request

record request =
  http_method :: string
  form :: "string \<rightharpoonup> string"

text \<open>
  The process-wide state, and what a request finds outside the program: the upstream
  service, the local time zone, the rendering \<^verbatim>\<open>pio.to_html\<close> of a figure, and the clock
  readings at the call of \<^verbatim>\<open>cache.get\<close> and at the call of \<^verbatim>\<open>cache.set\<close>.
\<close>

record app_state =
  result_cache :: "string simple_cache"
  session :: session_state

record environment =
  env_upstream :: "string \<Rightarrow> http_result"
  env_utcoffset :: "int \<Rightarrow> int"
  to_html :: "figure \<Rightarrow> string"
  time_at_get :: real
  time_at_set :: real

text \<open>The part of the handler after a cache miss: fetch, render, store.\<close>

definition fetch_and_render ::
  "environment \<Rightarrow> string \<Rightarrow> string \<Rightarrow> string \<Rightarrow> app_state \<Rightarrow> page \<times> app_state" where
  "fetch_and_render env username time_control cache_key app =
     (case fetch_and_process_games (env_upstream env) (env_utcoffset env) username time_control
             (session app) of
        ((fig, error), s1) \<Rightarrow>
          if error \<noteq> None \<and> error \<noteq> Some []
          then (Index_html error, app\<lparr>session := s1\<rparr>)
          else
            (case fig of
               Some f \<Rightarrow>
                 let chart_html = to_html env f
                 in (Chart_html username time_control chart_html,
                     \<lparr>result_cache = SimpleCache_set (time_at_set env) cache_key chart_html
                                       (result_cache app),
                      session = s1\<rparr>)
             | None \<Rightarrow> (Index_html (Some ''Failed to create chart.''), app\<lparr>session := s1\<rparr>)))"

definition index :: "environment \<Rightarrow> request \<Rightarrow> app_state \<Rightarrow> page \<times> app_state" where
  "index env req app =
     (if http_method req = ''POST'' then
        (case form req ''username'' of
           None \<Rightarrow> (Bad_request, app)
         | Some raw_username \<Rightarrow>
             (case form req ''time_control'' of
                None \<Rightarrow> (Bad_request, app)
              | Some raw_time_control \<Rightarrow>
                  let username = strip raw_username;
                      time_control = lower (strip raw_time_control)
                  in if \<not> validate_username username
                     then (Index_html (Some ''Invalid username format.''), app)
                     else if time_control \<notin> set [''bullet'', ''blitz'', ''rapid'', ''daily'']
                     then (Index_html (Some ''Invalid time control selected.''), app)
                     else
                       let cache_key = username @ ''_'' @ time_control
                       in case SimpleCache_get (time_at_get env) cache_key (result_cache app) of
                            (Some cached_result, c1) \<Rightarrow>
                              if cached_result \<noteq> []
                              then (Chart_html username time_control cached_result,
                                    app\<lparr>result_cache := c1\<rparr>)
                              else fetch_and_render env username time_control cache_key
                                     (app\<lparr>result_cache := c1\<rparr>)
                          | (None, c1) \<Rightarrow>
                              fetch_and_render env username time_control cache_key
                                (app\<lparr>result_cache := c1\<rparr>)))
      else (Index_html None, app))"

section \<open>Auxiliary definitions for the proofs\<close>

text \<open>
  The value that the forward fill carries to day \<open>d\<close> of a column \<open>f\<close> starting at day
  \<open>lo\<close>, the bar that the aggregation computes for the group of a day, and the row of the
  chart for a day.
\<close>

function carry :: "(int \<Rightarrow> 'a option) \<Rightarrow> 'a option \<Rightarrow> int \<Rightarrow> int \<Rightarrow> 'a option" where
  "carry f p lo d = (if d < lo then p else case f d of Some v \<Rightarrow> Some v | None \<Rightarrow> carry f p lo (d - 1))"
  by pat_completeness auto

termination
  by (relation "measure (\<lambda>(f, p, lo, d). nat (d - lo + 1))") auto

declare carry.simps [simp del]

definition group_bar :: "observation list \<Rightarrow> int \<Rightarrow> daily_bar" where
  "group_bar df d =
     \<lparr>bar_date = d, bar_open = hd (map rating (filter (\<lambda>ob. date ob = d) df)),
      bar_high = Max (set (map rating (filter (\<lambda>ob. date ob = d) df))),
      bar_low = Min (set (map rating (filter (\<lambda>ob. date ob = d) df))),
      bar_close = last (map rating (filter (\<lambda>ob. date ob = d) df))\<rparr>"

definition close_col :: "observation list \<Rightarrow> int \<Rightarrow> int option" where
  "close_col df d =
     (if d \<in> date ` set df then Some (bar_close (group_bar (sort_values df) d)) else None)"

definition chart_row :: "observation list \<Rightarrow> int \<Rightarrow> ohlc_row" where
  "chart_row df d =
     (if d \<in> date ` set df
      then \<lparr>row_date = d, row_open = Some (bar_open (group_bar (sort_values df) d)),
            row_high = Some (bar_high (group_bar (sort_values df) d)),
            row_low = Some (bar_low (group_bar (sort_values df) d)),
            row_close = Some (bar_close (group_bar (sort_values df) d))\<rparr>
      else let c = carry (close_col df) None (Min (date ` set df)) d
           in \<lparr>row_date = d, row_open = c, row_high = c, row_low = c, row_close = c\<rparr>)"

text \<open>
  Inputs to evaluate the program on: the observations of 1 and 3 January 2024 (ratings 1000
  and 1050) and those of 5 February 2024 at 08:00 and 20:00 (ratings 900 and 950), latest
  first; upstream services, sessions, requests and records. A period fetch has failed when
  the answer is not a 200 response.
\<close>

definition scenario_a :: "observation list" where
  "scenario_a = [\<lparr>date = 19725, rating = 1050, timestamp = 1704283200\<rparr>,
                 \<lparr>date = 19723, rating = 1000, timestamp = 1704110400\<rparr>]"

definition scenario_b :: "observation list" where
  "scenario_b = [\<lparr>date = 19758, rating = 950, timestamp = 1707163200\<rparr>,
                 \<lparr>date = 19758, rating = 900, timestamp = 1707120000\<rparr>]"

definition fetch_failed :: "http_result \<Rightarrow> bool" where
  "fetch_failed r = (case r of Response status_code body \<Rightarrow> status_code \<noteq> 200 | RequestException e \<Rightarrow> True)"

definition no_such_user :: "string \<Rightarrow> http_result" where
  "no_such_user url = Response 404 \<lparr>archives = None, games = None\<rparr>"

definition unreachable :: "string \<Rightarrow> http_result" where
  "unreachable url = RequestException ''Connection refused''"

definition server_error :: "string \<Rightarrow> http_result" where
  "server_error url = Response 500 \<lparr>archives = None, games = None\<rparr>"

definition bad_months :: "string \<Rightarrow> http_result" where
  "bad_months url =
     (if url = ''https://api.chess.com/pub/player/bob''
      then Response 200 \<lparr>archives = None, games = None\<rparr>
      else if url = ''https://api.chess.com/pub/player/bob/games/archives''
      then Response 200 \<lparr>archives = Some [''https://api.chess.com/pub/player/bob/games/2024/01''],
                         games = None\<rparr>
      else Response 500 \<lparr>archives = None, games = None\<rparr>)"

definition render_stub :: "figure \<Rightarrow> string" where
  "render_stub fig = ''<div>''"

definition epoch_zero_game :: game where
  "epoch_zero_game =
     \<lparr>white = Some \<lparr>player_username = Some ''Bob'', player_rating = Some 1000\<rparr>,
      black = Some \<lparr>player_username = Some ''al'', player_rating = Some 900\<rparr>,
      end_time = Some 0, time_class = Some ''blitz''\<rparr>"

definition ghost_request :: request where
  "ghost_request =
     \<lparr>http_method = ''POST'',
      form = [''username'' \<mapsto> ''ghost'', ''time_control'' \<mapsto> ''blitz'']\<rparr>"

definition utc :: "int \<Rightarrow> int" where
  "utc t = 0"

definition new_session :: session_state where
  "new_session = \<lparr>profile_cache = [], request_log = []\<rparr>"

definition ghost_env :: environment where
  "ghost_env = \<lparr>env_upstream = no_such_user, env_utcoffset = utc, to_html = render_stub,
                time_at_get = 0, time_at_set = 1\<rparr>"

definition new_app :: app_state where
  "new_app = \<lparr>result_cache = initial_cache, session = new_session\<rparr>"

section \<open>Properties of the aggregation\<close>

lemma concat_map_single: "\<forall>x\<in>set xs. f x = [g x] \<Longrightarrow> concat (map f xs) = map g xs"
  by (induction xs) auto

lemma agg_nonempty:
  assumes "g \<noteq> []"
  shows "agg d g = [\<lparr>bar_date = d, bar_open = hd g, bar_high = Max (set g),
                    bar_low = Min (set g), bar_close = last g\<rparr>]"
proof (cases g)
  case Nil
  with assms show ?thesis by simp
next
  case (Cons r rs)
  have "fold max rs r = Max (set (r # rs))" "fold min rs r = Min (set (r # rs))"
    by (simp_all only: Max.set_eq_fold Min.set_eq_fold)
  with Cons show ?thesis
    unfolding agg_def by (simp del: last.simps)
qed

lemma group_nonempty: "d \<in> date ` set df \<Longrightarrow> map rating (filter (\<lambda>ob. date ob = d) df) \<noteq> []"
  by (auto simp: filter_empty_conv)

lemma groupby_agg_eq:
  "groupby_agg df = map (group_bar df) (sorted_list_of_set (date ` set df))"
proof -
  have "\<forall>d\<in>set (sorted_list_of_set (date ` set df)).
          agg d (map rating (filter (\<lambda>ob. date ob = d) df)) = [group_bar df d]"
  proof
    fix d assume "d \<in> set (sorted_list_of_set (date ` set df))"
    then have "d \<in> date ` set df" by simp
    then show "agg d (map rating (filter (\<lambda>ob. date ob = d) df)) = [group_bar df d]"
      unfolding group_bar_def by (rule agg_nonempty [OF group_nonempty])
  qed
  then show ?thesis
    unfolding groupby_agg_def set_map by (rule concat_map_single)
qed

lemma groupby_agg_dates: "map bar_date (groupby_agg df) = sorted_list_of_set (date ` set df)"
  by (simp add: groupby_agg_eq group_bar_def comp_def)

lemma set_sort_values: "set (sort_values df) = set df"
  by (simp add: sort_values_def)

lemma sorted_sort_values: "sorted (map timestamp (sort_values df))"
  by (simp add: sort_values_def)

lemma find_group_bar:
  "find (\<lambda>b. bar_date b = d) (map (group_bar df) ds)
   = (if d \<in> set ds then Some (group_bar df d) else None)"
  by (induction ds) (auto simp: group_bar_def)

lemma carry_shift:
  "lo < d \<Longrightarrow> carry f (case f lo of None \<Rightarrow> p | Some v \<Rightarrow> Some v) (lo + 1) d = carry f p lo d"
proof (induction f p lo d rule: carry.induct)
  case (1 f p lo d)
  show ?case
  proof (cases "f d")
    case (Some v)
    with "1.prems" show ?thesis by (simp add: carry.simps [of _ _ _ d])
  next
    case None
    show ?thesis
    proof (cases "lo < d - 1")
      case True
      with "1.IH" [OF _ None] "1.prems" None show ?thesis
        by (simp add: carry.simps [of _ _ _ d])
    next
      case False
      with "1.prems" have d: "d - 1 = lo" by simp
      with None "1.prems" show ?thesis
        by (simp add: carry.simps [of _ _ _ d] carry.simps [of _ _ _ lo] carry.simps [of _ _ _ "lo - 1"]
            split: option.splits)
    qed
  qed
qed

lemma ffill_from_upto:
  "ffill_from p (map f [lo..hi]) = map (carry f p lo) [lo..hi]"
proof (induction lo hi arbitrary: p rule: upto.induct)
  case (1 i j)
  show ?case
  proof (cases "i \<le> j")
    case False
    then show ?thesis by simp
  next
    case True
    let ?p = "case f i of None \<Rightarrow> p | Some v \<Rightarrow> Some v"
    have hd: "carry f p i i = ?p"
      by (simp add: carry.simps [of _ _ _ i] carry.simps [of _ _ _ "i - 1"] split: option.splits)
    have tl: "map (carry f ?p (i + 1)) [i + 1..j] = map (carry f p i) [i + 1..j]"
      by (rule map_cong) (simp_all add: carry_shift)
    have "ffill_from p (map f [i..j]) = ?p # ffill_from ?p (map f [i + 1..j])"
      using True by (simp add: upto_rec1 [of i j] split: option.splits)
    also have "\<dots> = ?p # map (carry f ?p (i + 1)) [i + 1..j]"
      using "1.IH" [OF True] by simp
    also have "\<dots> = map (carry f p i) [i..j]"
      using True hd tl by (simp add: upto_rec1 [of i j])
    finally show ?thesis .
  qed
qed

lemma carry_last_known:
  "lo \<le> q \<Longrightarrow> q \<le> d \<Longrightarrow> f q = Some v \<Longrightarrow> (\<forall>d'. q < d' \<and> d' \<le> d \<longrightarrow> f d' = None)
   \<Longrightarrow> carry f p lo d = Some v"
proof (induction f p lo d rule: carry.induct)
  case (1 f p lo d)
  show ?case
  proof (cases "q = d")
    case True
    with "1.prems" show ?thesis by (simp add: carry.simps [of _ _ _ d])
  next
    case False
    with "1.prems" have n: "f d = None" and lt: "q \<le> d - 1" "\<not> d < lo" by auto
    from "1.IH" [OF lt(2) n "1.prems"(1) lt(1) "1.prems"(3)] "1.prems"(4)
    have "carry f p lo (d - 1) = Some v" by simp
    with n lt show ?thesis by (simp add: carry.simps [of _ _ _ d])
  qed
qed

lemma map2_map_map: "map2 h (map f xs) (map g xs) = map (\<lambda>x. h (f x) (g x)) xs"
  by (induction xs) auto

lemma merge_left_groupby:
  "merge_left ds (groupby_agg (sort_values df)) =
     map (\<lambda>d. if d \<in> date ` set df
              then \<lparr>row_date = d, row_open = Some (bar_open (group_bar (sort_values df) d)),
                    row_high = Some (bar_high (group_bar (sort_values df) d)),
                    row_low = Some (bar_low (group_bar (sort_values df) d)),
                    row_close = Some (bar_close (group_bar (sort_values df) d))\<rparr>
              else \<lparr>row_date = d, row_open = None, row_high = None,
                    row_low = None, row_close = None\<rparr>) ds"
  unfolding merge_left_def groupby_agg_eq find_group_bar
  by (rule map_cong) (simp_all add: set_sort_values)

lemma candles_eq:
  assumes "df \<noteq> []"
  shows "create_candlestick_chart df tc =
           Some \<lparr>candles = map (chart_row df) [Min (date ` set df)..Max (date ` set df)],
                 title = str_title tc @ '' Rating History''\<rparr>"
proof -
  let ?D = "date ` set df"
  let ?s = "sort_values df"
  have fin: "finite ?D" and ne: "?D \<noteq> {}" using assms by simp_all
  have dates: "set (map bar_date (groupby_agg ?s)) = ?D"
    using fin by (simp add: groupby_agg_dates set_sort_values)
  have nonempty: "groupby_agg ?s \<noteq> []"
    using dates ne by auto
  let ?m = "merge_left [Min ?D..Max ?D] (groupby_agg ?s)"
  have closes: "map row_close ?m = map (close_col df) [Min ?D..Max ?D]"
    unfolding merge_left_groupby by (simp add: close_col_def)
  have ff: "ffill (map row_close ?m) = map (carry (close_col df) None (Min ?D)) [Min ?D..Max ?D]"
    unfolding closes ffill_def by (rule ffill_from_upto)
  have rows: "map2 fill_missing ?m (ffill (map row_close ?m)) = map (chart_row df) [Min ?D..Max ?D]"
    unfolding ff unfolding merge_left_groupby map2_map_map
    by (rule map_cong) (simp_all add: chart_row_def fill_missing_def Let_def)
  show ?thesis
    using assms nonempty rows
    by (simp add: create_candlestick_chart_def Let_def date_range_def dates del: set_map)
qed

lemma first_of_group:
  assumes "sorted (map key xs)" and "filter P xs \<noteq> []"
  shows "hd (filter P xs) \<in> set xs \<and> P (hd (filter P xs)) \<and>
         (\<forall>y\<in>set xs. P y \<longrightarrow> key (hd (filter P xs)) \<le> key y)"
proof -
  obtain z zs where ys: "filter P xs = z # zs"
    using assms(2) by (cases "filter P xs") auto
  have "sorted (map key (z # zs))"
    using sorted_filter [OF assms(1), of P] ys by simp
  then have le: "\<forall>y\<in>set (z # zs). key z \<le> key y" by auto
  have mem: "set (z # zs) = {x \<in> set xs. P x}"
    using ys [symmetric] by simp
  from mem have "z \<in> set xs" "P z" by auto
  moreover from le mem have "\<forall>y\<in>set xs. P y \<longrightarrow> key z \<le> key y" by blast
  ultimately show ?thesis by (simp add: ys)
qed

lemma last_of_group:
  assumes "sorted (map key xs)" and "filter P xs \<noteq> []"
  shows "last (filter P xs) \<in> set xs \<and> P (last (filter P xs)) \<and>
         (\<forall>y\<in>set xs. P y \<longrightarrow> key y \<le> key (last (filter P xs)))"
proof -
  obtain z zs where ys: "filter P xs = zs @ [z]"
    using assms(2) by (cases "filter P xs" rule: rev_cases) auto
  have "sorted (map key (zs @ [z]))"
    using sorted_filter [OF assms(1), of P] ys by simp
  then have le: "\<forall>y\<in>set (zs @ [z]). key y \<le> key z" by (auto simp: sorted_append)
  have mem: "set (zs @ [z]) = {x \<in> set xs. P x}"
    using ys [symmetric] by simp
  from mem have "z \<in> set xs" "P z" by auto
  moreover from le mem have "\<forall>y\<in>set xs. P y \<longrightarrow> key y \<le> key z" by blast
  ultimately show ?thesis by (simp add: ys)
qed

lemma group_bar_open:
  assumes "d \<in> date ` set df"
  shows "\<exists>o1\<in>set df. date o1 = d \<and> (\<forall>y\<in>set df. date y = d \<longrightarrow> timestamp o1 \<le> timestamp y) \<and>
           bar_open (group_bar (sort_values df) d) = rating o1"
proof -
  let ?g = "filter (\<lambda>ob. date ob = d) (sort_values df)"
  have ne: "?g \<noteq> []"
    using assms by (auto simp: filter_empty_conv set_sort_values)
  from first_of_group [OF sorted_sort_values ne]
  have "hd ?g \<in> set df" "date (hd ?g) = d"
    "\<forall>y\<in>set df. date y = d \<longrightarrow> timestamp (hd ?g) \<le> timestamp y"
    by (simp_all add: set_sort_values)
  moreover have "bar_open (group_bar (sort_values df) d) = rating (hd ?g)"
    using ne by (simp add: group_bar_def hd_map)
  ultimately show ?thesis by blast
qed

lemma group_bar_close:
  assumes "d \<in> date ` set df"
  shows "\<exists>o2\<in>set df. date o2 = d \<and> (\<forall>y\<in>set df. date y = d \<longrightarrow> timestamp y \<le> timestamp o2) \<and>
           bar_close (group_bar (sort_values df) d) = rating o2"
proof -
  let ?g = "filter (\<lambda>ob. date ob = d) (sort_values df)"
  have ne: "?g \<noteq> []"
    using assms by (auto simp: filter_empty_conv set_sort_values)
  from last_of_group [OF sorted_sort_values ne]
  have "last ?g \<in> set df" "date (last ?g) = d"
    "\<forall>y\<in>set df. date y = d \<longrightarrow> timestamp y \<le> timestamp (last ?g)"
    by (simp_all add: set_sort_values)
  moreover have "bar_close (group_bar (sort_values df) d) = rating (last ?g)"
    using ne by (simp add: group_bar_def last_map)
  ultimately show ?thesis by blast
qed

lemma group_bar_high_low:
  "bar_high (group_bar (sort_values df) d) = Max (rating ` {ob \<in> set df. date ob = d})"
  "bar_low (group_bar (sort_values df) d) = Min (rating ` {ob \<in> set df. date ob = d})"
  by (simp_all add: group_bar_def set_sort_values)

lemma row_date_chart_row: "row_date (chart_row df d) = d"
  by (simp add: chart_row_def Let_def)

lemma in_range:
  assumes "ob \<in> set df"
  shows "date ob \<in> set [Min (date ` set df)..Max (date ` set df)]"
  using assms by simp

text \<open>
  \<^bold>\<open>C1.\<close> Whenever the frame holds an observation, a chart is produced, and it has exactly one bar for that observation's calendar day: its open is the rating of an observation of that day with the earliest timestamp, its close the rating of one with the latest timestamp, its high the maximum and its low the minimum of the ratings of that day.
\<close>

theorem daily_bar_ohlc:
  assumes "ob \<in> set df"
  shows "\<exists>fig b o1 o2.
           create_candlestick_chart df tc = Some fig \<and>
           b \<in> set (candles fig) \<and> row_date b = date ob \<and>
           (\<forall>b'\<in>set (candles fig). row_date b' = date ob \<longrightarrow> b' = b) \<and>
           o1 \<in> set df \<and> date o1 = date ob \<and>
           (\<forall>y\<in>set df. date y = date ob \<longrightarrow> timestamp o1 \<le> timestamp y) \<and>
           row_open b = Some (rating o1) \<and>
           o2 \<in> set df \<and> date o2 = date ob \<and>
           (\<forall>y\<in>set df. date y = date ob \<longrightarrow> timestamp y \<le> timestamp o2) \<and>
           row_close b = Some (rating o2) \<and>
           row_high b = Some (Max (rating ` {y \<in> set df. date y = date ob})) \<and>
           row_low b = Some (Min (rating ` {y \<in> set df. date y = date ob}))"
proof -
  let ?d = "date ob"
  let ?fig = "\<lparr>candles = map (chart_row df) [Min (date ` set df)..Max (date ` set df)],
               title = str_title tc @ '' Rating History''\<rparr>"
  let ?b = "chart_row df ?d"
  from assms have ne: "df \<noteq> []" and d: "?d \<in> date ` set df" by auto
  have fig: "create_candlestick_chart df tc = Some ?fig"
    by (rule candles_eq [OF ne])
  have mem: "?b \<in> set (candles ?fig)"
    using in_range [OF assms] by simp
  have uniq: "\<forall>b'\<in>set (candles ?fig). row_date b' = ?d \<longrightarrow> b' = ?b"
    by (auto simp: row_date_chart_row)
  obtain o1 where o1: "o1 \<in> set df" "date o1 = ?d"
      "\<forall>y\<in>set df. date y = ?d \<longrightarrow> timestamp o1 \<le> timestamp y"
      "bar_open (group_bar (sort_values df) ?d) = rating o1"
    using group_bar_open [OF d] by blast
  obtain o2 where o2: "o2 \<in> set df" "date o2 = ?d"
      "\<forall>y\<in>set df. date y = ?d \<longrightarrow> timestamp y \<le> timestamp o2"
      "bar_close (group_bar (sort_values df) ?d) = rating o2"
    using group_bar_close [OF d] by blast
  have vals: "row_open ?b = Some (rating o1)" "row_close ?b = Some (rating o2)"
    "row_high ?b = Some (Max (rating ` {y \<in> set df. date y = ?d}))"
    "row_low ?b = Some (Min (rating ` {y \<in> set df. date y = ?d}))"
    using d o1(4) o2(4) by (simp_all add: chart_row_def group_bar_high_low)
  show ?thesis
    using fig mem uniq o1(1-3) o2(1-3) vals row_date_chart_row [of df ?d] by blast
qed

theorem daily_bar_ohlc_witness:
  "\<exists>fig b o1 o2.
     create_candlestick_chart scenario_b ''rapid'' = Some fig \<and>
     b \<in> set (candles fig) \<and> row_date b = 19758 \<and>
     (\<forall>b'\<in>set (candles fig). row_date b' = 19758 \<longrightarrow> b' = b) \<and>
     o1 \<in> set scenario_b \<and> date o1 = 19758 \<and>
     (\<forall>y\<in>set scenario_b. date y = 19758 \<longrightarrow> timestamp o1 \<le> timestamp y) \<and>
     row_open b = Some (rating o1) \<and>
     o2 \<in> set scenario_b \<and> date o2 = 19758 \<and>
     (\<forall>y\<in>set scenario_b. date y = 19758 \<longrightarrow> timestamp y \<le> timestamp o2) \<and>
     row_close b = Some (rating o2) \<and>
     row_high b = Some (Max (rating ` {y \<in> set scenario_b. date y = 19758})) \<and>
     row_low b = Some (Min (rating ` {y \<in> set scenario_b. date y = 19758}))"
proof -
  have "\<lparr>date = 19758, rating = 900, timestamp = 1707120000\<rparr> \<in> set scenario_b"
    by (simp add: scenario_b_def)
  from daily_bar_ohlc [OF this, of "''rapid''"] show ?thesis by simp
qed

lemma chart_row_gap:
  assumes "ob \<in> set df" and "date ob < d"
    and "\<forall>y\<in>set df. date y \<le> date ob \<or> d < date y"
  shows "chart_row df d =
           (let c = row_close (chart_row df (date ob))
            in \<lparr>row_date = d, row_open = c, row_high = c, row_low = c, row_close = c\<rparr>)"
proof -
  let ?D = "date ` set df"
  let ?v = "bar_close (group_bar (sort_values df) (date ob))"
  have q: "date ob \<in> ?D" using assms(1) by simp
  have nd: "d \<notin> ?D" using assms(2,3) by force
  have lo: "Min ?D \<le> date ob" using q by simp
  have some: "close_col df (date ob) = Some ?v" using q by (simp add: close_col_def)
  have none: "\<forall>d'. date ob < d' \<and> d' \<le> d \<longrightarrow> close_col df d' = None"
    using assms(3) by (force simp: close_col_def)
  have "carry (close_col df) None (Min ?D) d = Some ?v"
    using lo assms(2) some none by (intro carry_last_known [where q = "date ob"]) simp_all
  moreover have "row_close (chart_row df (date ob)) = Some ?v"
    using q by (simp add: chart_row_def)
  ultimately show ?thesis using nd by (simp add: chart_row_def Let_def)
qed

text \<open>
  \<^bold>\<open>C2.\<close> Let a day \<open>d\<close> lie after the day of an observation \<open>ob\<close> and not after the day of some observation, with no observation on any day after that of \<open>ob\<close> up to and including \<open>d\<close>. Then the chart has exactly one bar for \<open>d\<close>, and its open, high, low and close are all the close of the bar of the day of \<open>ob\<close>, the most recent earlier day with data: a value, never a missing one.
\<close>

theorem gap_day_forward_fill:
  assumes "ob \<in> set df" and "date ob < d" and "ob' \<in> set df" and "d \<le> date ob'"
    and "\<forall>y\<in>set df. date y \<le> date ob \<or> d < date y"
  shows "\<exists>fig bp c.
           create_candlestick_chart df tc = Some fig \<and>
           bp \<in> set (candles fig) \<and> row_date bp = date ob \<and> row_close bp = Some c \<and>
           \<lparr>row_date = d, row_open = Some c, row_high = Some c,
            row_low = Some c, row_close = Some c\<rparr> \<in> set (candles fig) \<and>
           (\<forall>b\<in>set (candles fig). row_date b = d \<longrightarrow>
              b = \<lparr>row_date = d, row_open = Some c, row_high = Some c,
                   row_low = Some c, row_close = Some c\<rparr>)"
proof -
  let ?D = "date ` set df"
  let ?fig = "\<lparr>candles = map (chart_row df) [Min ?D..Max ?D],
               title = str_title tc @ '' Rating History''\<rparr>"
  let ?bp = "chart_row df (date ob)"
  from assms(1) have ne: "df \<noteq> []" and q: "date ob \<in> ?D" by auto
  have fig: "create_candlestick_chart df tc = Some ?fig"
    by (rule candles_eq [OF ne])
  obtain c where c: "row_close ?bp = Some c"
    using q by (simp add: chart_row_def)
  have bp: "?bp \<in> set (candles ?fig)"
    using in_range [OF assms(1)] by simp
  have "Min ?D \<le> date ob" using q by simp
  moreover have "date ob' \<le> Max ?D" using assms(3) by simp
  ultimately have "d \<in> set [Min ?D..Max ?D]"
    using assms(2,4) by simp
  then have "chart_row df d \<in> set (candles ?fig)" by simp
  moreover have row: "chart_row df d = \<lparr>row_date = d, row_open = Some c, row_high = Some c,
            row_low = Some c, row_close = Some c\<rparr>"
    using chart_row_gap [OF assms(1,2,5)] c by (simp add: Let_def)
  ultimately have mem: "\<lparr>row_date = d, row_open = Some c, row_high = Some c,
            row_low = Some c, row_close = Some c\<rparr> \<in> set (candles ?fig)" by simp
  have uniq: "\<forall>b\<in>set (candles ?fig). row_date b = d \<longrightarrow>
              b = \<lparr>row_date = d, row_open = Some c, row_high = Some c,
                   row_low = Some c, row_close = Some c\<rparr>"
    using row by (auto simp: row_date_chart_row)
  show ?thesis
    using fig bp c mem uniq row_date_chart_row [of df "date ob"] by blast
qed

theorem gap_day_forward_fill_witness:
  "\<exists>fig bp c.
     create_candlestick_chart scenario_a ''blitz'' = Some fig \<and>
     bp \<in> set (candles fig) \<and> row_date bp = 19723 \<and> row_close bp = Some c \<and>
     \<lparr>row_date = 19724, row_open = Some c, row_high = Some c,
      row_low = Some c, row_close = Some c\<rparr> \<in> set (candles fig) \<and>
     (\<forall>b\<in>set (candles fig). row_date b = 19724 \<longrightarrow>
        b = \<lparr>row_date = 19724, row_open = Some c, row_high = Some c,
             row_low = Some c, row_close = Some c\<rparr>)"
proof -
  have "\<lparr>date = 19723, rating = 1000, timestamp = 1704110400\<rparr> \<in> set scenario_a"
    and "\<lparr>date = 19725, rating = 1050, timestamp = 1704283200\<rparr> \<in> set scenario_a"
    and "\<forall>y\<in>set scenario_a.
           date y \<le> date \<lparr>date = 19723, rating = 1000, timestamp = 1704110400\<rparr> \<or> 19724 < date y"
    by (simp_all add: scenario_a_def)
  from gap_day_forward_fill [OF this(1) _ this(2) _ this(3), of "''blitz''"]
  show ?thesis by simp
qed

text \<open>
  \<^bold>\<open>C3.\<close> For a non-empty frame the dates of the bars are exactly the days from the earliest to the latest observed date, in this order: as many bars as the difference in days plus one, ascending, without repetition, each one day after the one before.
\<close>

theorem bars_cover_range:
  assumes "df \<noteq> []"
  shows "\<exists>fig. create_candlestick_chart df tc = Some fig \<and>
           map row_date (candles fig) = [Min (date ` set df)..Max (date ` set df)] \<and>
           length (candles fig) = nat (Max (date ` set df) - Min (date ` set df)) + 1 \<and>
           sorted (map row_date (candles fig)) \<and> distinct (map row_date (candles fig)) \<and>
           (\<forall>i. Suc i < length (candles fig) \<longrightarrow>
              row_date (candles fig ! Suc i) = row_date (candles fig ! i) + 1)"
proof -
  let ?lo = "Min (date ` set df)"
  let ?hi = "Max (date ` set df)"
  let ?fig = "\<lparr>candles = map (chart_row df) [?lo..?hi],
               title = str_title tc @ '' Rating History''\<rparr>"
  have fig: "create_candlestick_chart df tc = Some ?fig"
    by (rule candles_eq [OF assms])
  have le: "?lo \<le> ?hi" using assms by simp
  have dates: "map row_date (candles ?fig) = [?lo..?hi]"
    by (simp add: comp_def row_date_chart_row)
  have len: "length (candles ?fig) = nat (?hi - ?lo) + 1"
    using le by simp
  have step: "\<forall>i. Suc i < length (candles ?fig) \<longrightarrow>
              row_date (candles ?fig ! Suc i) = row_date (candles ?fig ! i) + 1"
    by (simp add: row_date_chart_row)
  have "sorted (map row_date (candles ?fig))" "distinct (map row_date (candles ?fig))"
    unfolding dates by simp_all
  with fig dates len step show ?thesis by blast
qed

theorem bars_cover_range_witness:
  "\<exists>fig. create_candlestick_chart scenario_a ''blitz'' = Some fig \<and>
     map row_date (candles fig) = [19723, 19724, 19725] \<and>
     length (candles fig) = 3 \<and>
     sorted (map row_date (candles fig)) \<and> distinct (map row_date (candles fig))"
proof -
  have ne: "scenario_a \<noteq> []"
    and lo: "Min (date ` set scenario_a) = 19723" and hi: "Max (date ` set scenario_a) = 19725"
    by (simp_all add: scenario_a_def)
  have days: "[19723..19725] = [19723, 19724, 19725]"
    by (simp add: upto_rec1)
  from bars_cover_range [OF ne, of "''blitz''"] show ?thesis
    unfolding lo hi days by auto
qed

lemma group_bar_perm:
  assumes "set df = set df'"
    and "\<forall>x\<in>set df. \<forall>y\<in>set df. date x = date y \<and> timestamp x = timestamp y \<longrightarrow> rating x = rating y"
    and "d \<in> date ` set df"
  shows "group_bar (sort_values df) d = group_bar (sort_values df') d"
proof -
  have d': "d \<in> date ` set df'" using assms(1,3) by simp
  obtain a where a: "a \<in> set df" "date a = d"
      "\<forall>y\<in>set df. date y = d \<longrightarrow> timestamp a \<le> timestamp y"
      "bar_open (group_bar (sort_values df) d) = rating a"
    using group_bar_open [OF assms(3)] by blast
  obtain a' where a': "a' \<in> set df" "date a' = d"
      "\<forall>y\<in>set df. date y = d \<longrightarrow> timestamp a' \<le> timestamp y"
      "bar_open (group_bar (sort_values df') d) = rating a'"
    using group_bar_open [OF d'] assms(1) by blast
  have "timestamp a \<le> timestamp a'" using a(3) a'(1,2) by blast
  moreover have "timestamp a' \<le> timestamp a" using a'(3) a(1,2) by blast
  ultimately have "date a = date a' \<and> timestamp a = timestamp a'"
    using a(2) a'(2) by simp
  then have op: "rating a = rating a'"
    by (rule assms(2) [rule_format, OF a(1) a'(1)])
  obtain z where z: "z \<in> set df" "date z = d"
      "\<forall>y\<in>set df. date y = d \<longrightarrow> timestamp y \<le> timestamp z"
      "bar_close (group_bar (sort_values df) d) = rating z"
    using group_bar_close [OF assms(3)] by blast
  obtain z' where z': "z' \<in> set df" "date z' = d"
      "\<forall>y\<in>set df. date y = d \<longrightarrow> timestamp y \<le> timestamp z'"
      "bar_close (group_bar (sort_values df') d) = rating z'"
    using group_bar_close [OF d'] assms(1) by blast
  have "timestamp z' \<le> timestamp z" using z(3) z'(1,2) by blast
  moreover have "timestamp z \<le> timestamp z'" using z'(3) z(1,2) by blast
  ultimately have "date z = date z' \<and> timestamp z = timestamp z'"
    using z(2) z'(2) by simp
  then have cl: "rating z = rating z'"
    by (rule assms(2) [rule_format, OF z(1) z'(1)])
  show ?thesis
  proof (rule daily_bar.equality)
    show "bar_open (group_bar (sort_values df) d) = bar_open (group_bar (sort_values df') d)"
      using a(4) a'(4) op by simp
    show "bar_close (group_bar (sort_values df) d) = bar_close (group_bar (sort_values df') d)"
      using z(4) z'(4) cl by simp
  qed (simp_all add: group_bar_high_low assms(1), simp_all add: group_bar_def)
qed

text \<open>
  \<^bold>\<open>C4.\<close> (as amended) If two observations of the same day with the same timestamp never differ in rating, every reordering of the frame gives the same chart.
\<close>

theorem aggregation_order_independent:
  assumes "mset df = mset df'"
    and "\<forall>x\<in>set df. \<forall>y\<in>set df. date x = date y \<and> timestamp x = timestamp y \<longrightarrow> rating x = rating y"
  shows "create_candlestick_chart df tc = create_candlestick_chart df' tc"
proof (cases "df = []")
  case True
  with assms(1) show ?thesis by simp
next
  case False
  have sets: "set df = set df'" using assms(1) by (rule mset_eq_setD)
  with False have ne': "df' \<noteq> []" by auto
  have bars: "\<And>d. d \<in> date ` set df \<Longrightarrow> group_bar (sort_values df) d = group_bar (sort_values df') d"
    using group_bar_perm [OF sets assms(2)] .
  have "close_col df = close_col df'"
    by (rule ext) (simp add: close_col_def sets [symmetric] bars)
  then have "chart_row df = chart_row df'"
    by (intro ext) (simp add: chart_row_def sets [symmetric] bars)
  then show ?thesis
    by (simp add: candles_eq [OF False] candles_eq [OF ne'] sets)
qed

theorem aggregation_order_independent_witness:
  "create_candlestick_chart scenario_a ''blitz'' = create_candlestick_chart (rev scenario_a) ''blitz''"
  by (rule aggregation_order_independent) (simp_all add: scenario_a_def)

text \<open>
  As stated, without the condition on equal timestamps, the claim fails: two observations of
  one day with the same timestamp and different ratings, in either order.
\<close>

theorem aggregation_order_counterexample:
  "mset [\<lparr>date = 19758, rating = 1000, timestamp = 1707120000\<rparr>,
         \<lparr>date = 19758, rating = 1050, timestamp = 1707120000\<rparr>]
     = mset [\<lparr>date = 19758, rating = 1050, timestamp = 1707120000\<rparr>,
             \<lparr>date = 19758, rating = 1000, timestamp = 1707120000\<rparr>] \<and>
   create_candlestick_chart
     [\<lparr>date = 19758, rating = 1000, timestamp = 1707120000\<rparr>,
      \<lparr>date = 19758, rating = 1050, timestamp = 1707120000\<rparr>] ''daily''
   \<noteq> create_candlestick_chart
     [\<lparr>date = 19758, rating = 1050, timestamp = 1707120000\<rparr>,
      \<lparr>date = 19758, rating = 1000, timestamp = 1707120000\<rparr>] ''daily''"
  by code_simp

section \<open>Properties of the result cache\<close>

text \<open>
  \<^bold>\<open>C5.\<close> On the cache with a timeout of 300 seconds, \<^verbatim>\<open>set(k, v)\<close> at time \<open>t0\<close> followed by
  \<^verbatim>\<open>get(k)\<close> returns \<open>v\<close> when read at once, and whenever the time elapsed is strictly less than
  300; once it is not, \<^verbatim>\<open>get(k)\<close> returns a miss and the store no longer has the key.
\<close>

theorem cache_round_trip:
  assumes "timeout c = 300"
  shows "fst (SimpleCache_get t0 k (SimpleCache_set t0 k v c)) = Some v \<and>
         (t1 - t0 < 300 \<longrightarrow> fst (SimpleCache_get t1 k (SimpleCache_set t0 k v c)) = Some v) \<and>
         (\<not> t1 - t0 < 300 \<longrightarrow>
            fst (SimpleCache_get t1 k (SimpleCache_set t0 k v c)) = None \<and>
            k \<notin> dom (cache (snd (SimpleCache_get t1 k (SimpleCache_set t0 k v c)))))"
  using assms by (simp add: SimpleCache_get_def SimpleCache_set_def)

theorem cache_round_trip_witness:
  "fst (SimpleCache_get 10 ''bob_blitz'' (SimpleCache_set 10 ''bob_blitz'' ''<div>'' initial_cache))
     = Some ''<div>'' \<and>
   fst (SimpleCache_get 309 ''bob_blitz'' (SimpleCache_set 10 ''bob_blitz'' ''<div>'' initial_cache))
     = Some ''<div>'' \<and>
   fst (SimpleCache_get 310 ''bob_blitz'' (SimpleCache_set 10 ''bob_blitz'' ''<div>'' initial_cache))
     = None \<and>
   ''bob_blitz'' \<notin> dom (cache (snd (SimpleCache_get 310 ''bob_blitz''
                                     (SimpleCache_set 10 ''bob_blitz'' ''<div>'' initial_cache))))"
  using cache_round_trip [of initial_cache 10 "''bob_blitz''" "''<div>''" 309]
    cache_round_trip [of initial_cache 10 "''bob_blitz''" "''<div>''" 310]
  by (simp add: initial_cache_def SimpleCache_init_def)

section \<open>Properties of the upstream calls\<close>

lemma parse_archives_not_api_error: "parse_archives as \<noteq> Inl (ChessAPIError msg)"
  by (induction as) (auto simp: parse_archive_def Let_def split: sum.splits option.splits)

text \<open>
  \<^bold>\<open>C6.\<close> (as amended) \<^verbatim>\<open>get_user_archives\<close> never raises \<^verbatim>\<open>ChessAPIError\<close>: on a response other
  than 200 (404 included) and on a request exception it returns the empty list, as it does on
  a 200 response with an empty or absent archive list.
\<close>

theorem archive_listing_failures:
  "(upstream (archives_url username) = Response status_code body \<and> status_code \<noteq> 200 \<longrightarrow>
      fst (get_user_archives upstream username st) = Inr []) \<and>
   (upstream (archives_url username) = RequestException e \<longrightarrow>
      fst (get_user_archives upstream username st) = Inr []) \<and>
   (upstream (archives_url username) = Response 200 body \<and>
      (archives body = None \<or> archives body = Some []) \<longrightarrow>
      fst (get_user_archives upstream username st) = Inr []) \<and>
   fst (get_user_archives upstream username st) \<noteq> Inl (ChessAPIError msg)"
  by (auto simp: get_user_archives_def session_get_def parse_archives_not_api_error
      split: http_result.splits)

theorem archive_listing_failures_witness:
  "fst (get_user_archives server_error ''bob'' new_session) = Inr [] \<and>
   fst (get_user_archives server_error ''bob'' new_session) \<noteq> Inl (ChessAPIError ''API error: 500'')"
  using archive_listing_failures [of server_error "''bob''" 500 "\<lparr>archives = None, games = None\<rparr>"
      new_session "''x''" "''API error: 500''"]
  by (simp add: server_error_def)

text \<open>
  As stated the claim fails: for a user that does not exist upstream, and for an upstream that
  cannot be reached, the listing is the empty list and no error.
\<close>

theorem archive_listing_counterexample:
  "fst (get_user_archives no_such_user ''ghost'' new_session) = Inr [] \<and>
   fst (get_user_archives unreachable ''ghost'' new_session) = Inr []"
  by (simp add: get_user_archives_def session_get_def no_such_user_def unreachable_def)

lemma get_single_month_games_failed:
  "fetch_failed (upstream (month_url username year month)) \<Longrightarrow>
   fst (get_single_month_games upstream (username, year, month, tc) st) = []"
  by (auto simp: get_single_month_games_def session_get_def fetch_failed_def
      split: http_result.splits)

lemma fetch_months_failed:
  "\<forall>a\<in>set reqs. case a of (u, y, m, tc) \<Rightarrow> fetch_failed (upstream (month_url u y m)) \<Longrightarrow>
   fst (fetch_months upstream reqs st) = []"
proof (induction reqs arbitrary: st)
  case Nil
  then show ?case by simp
next
  case (Cons a reqs)
  obtain u y m tc where a: "a = (u, y, m, tc)" by (cases a) auto
  with Cons.prems have "fetch_failed (upstream (month_url u y m))" by simp
  then have "fst (get_single_month_games upstream a st) = []"
    unfolding a by (rule get_single_month_games_failed)
  moreover have "fst (fetch_months upstream reqs st') = []" for st'
    using Cons.prems by (intro Cons.IH) simp
  ultimately show ?case
    by (auto split: prod.splits dest: arg_cong [where f = fst])
qed

lemma pipeline_all_failed:
  assumes "get_user_profile upstream u st = (Inr profile, st1)"
    and "get_user_archives upstream u st1 = (Inr months, st2)"
    and "months \<noteq> []"
    and "\<forall>(y, m)\<in>set months. fetch_failed (upstream (month_url u y m))"
  shows "fst (fetch_and_process_games upstream utcoffset u tc st) =
           (None, Some (''No '' @ tc @ '' games found for '' @ u @ ''.''))"
proof -
  let ?reqs = "map (\<lambda>(year, month). (u, year, month, tc)) months"
  have "\<forall>a\<in>set ?reqs. case a of (u', y, m, tc') \<Rightarrow> fetch_failed (upstream (month_url u' y m))"
    using assms(4) by auto
  then have "fst (fetch_months upstream ?reqs st2) = []"
    by (rule fetch_months_failed)
  then obtain st3 where "fetch_months upstream ?reqs st2 = ([], st3)"
    by (cases "fetch_months upstream ?reqs st2") auto
  then have "process upstream utcoffset u tc st =
      (Inr (None, Some (''No '' @ tc @ '' games found for '' @ u @ ''.'')), st3)"
    using assms(1-3) by (simp add: process_def extract_game_data_def)
  then show ?thesis by (simp add: fetch_and_process_games_def)
qed

text \<open>
  \<^bold>\<open>C7.\<close> A period fetch answered with 404, with any other status than 200, or ending in a request
  exception returns the empty list; when every period fetch fails so, the joined result is
  empty, and a run whose profile and archive lookups succeeded goes on to report that no games
  of the time control were found. With typed bodies the fetch of a period has no exception to
  raise: its result is a list in every case.
\<close>

theorem period_fetch_tolerant:
  "(upstream (month_url u y m) = Response 404 body \<longrightarrow>
      fst (get_single_month_games upstream (u, y, m, tc) st) = []) \<and>
   (upstream (month_url u y m) = Response status_code body \<and> status_code \<noteq> 200 \<longrightarrow>
      fst (get_single_month_games upstream (u, y, m, tc) st) = []) \<and>
   (upstream (month_url u y m) = RequestException e \<longrightarrow>
      fst (get_single_month_games upstream (u, y, m, tc) st) = []) \<and>
   ((\<forall>a\<in>set reqs. case a of (u', y', m', tc') \<Rightarrow> fetch_failed (upstream (month_url u' y' m'))) \<longrightarrow>
      fst (fetch_months upstream reqs st) = []) \<and>
   (get_user_profile upstream u st = (Inr profile, st1) \<and>
    get_user_archives upstream u st1 = (Inr months, st2) \<and> months \<noteq> [] \<and>
    (\<forall>(y', m')\<in>set months. fetch_failed (upstream (month_url u y' m'))) \<longrightarrow>
      fst (fetch_and_process_games upstream utcoffset u tc st) =
        (None, Some (''No '' @ tc @ '' games found for '' @ u @ ''.'')))"
proof (intro conjI impI)
  assume "upstream (month_url u y m) = Response 404 body"
  then show "fst (get_single_month_games upstream (u, y, m, tc) st) = []"
    by (intro get_single_month_games_failed) (simp add: fetch_failed_def)
next
  assume "upstream (month_url u y m) = Response status_code body \<and> status_code \<noteq> 200"
  then show "fst (get_single_month_games upstream (u, y, m, tc) st) = []"
    by (intro get_single_month_games_failed) (simp add: fetch_failed_def)
next
  assume "upstream (month_url u y m) = RequestException e"
  then show "fst (get_single_month_games upstream (u, y, m, tc) st) = []"
    by (intro get_single_month_games_failed) (simp add: fetch_failed_def)
next
  assume "\<forall>a\<in>set reqs. case a of (u', y', m', tc') \<Rightarrow> fetch_failed (upstream (month_url u' y' m'))"
  then show "fst (fetch_months upstream reqs st) = []"
    by (rule fetch_months_failed)
next
  assume "get_user_profile upstream u st = (Inr profile, st1) \<and>
    get_user_archives upstream u st1 = (Inr months, st2) \<and> months \<noteq> [] \<and>
    (\<forall>(y', m')\<in>set months. fetch_failed (upstream (month_url u y' m')))"
  then have "get_user_profile upstream u st = (Inr profile, st1)"
    and "get_user_archives upstream u st1 = (Inr months, st2)" and "months \<noteq> []"
    and "\<forall>(y', m')\<in>set months. fetch_failed (upstream (month_url u y' m'))"
    by simp_all
  then show "fst (fetch_and_process_games upstream utcoffset u tc st) =
        (None, Some (''No '' @ tc @ '' games found for '' @ u @ ''.''))"
    by (rule pipeline_all_failed)
qed

theorem period_fetch_tolerant_witness:
  "fst (get_single_month_games no_such_user (''bob'', 2024, 1, ''blitz'') new_session) = [] \<and>
   fst (get_single_month_games unreachable (''bob'', 2024, 1, ''blitz'') new_session) = [] \<and>
   fst (fetch_months bad_months [(''bob'', 2024, 1, ''blitz''), (''bob'', 2024, 2, ''blitz'')]
          new_session) = [] \<and>
   fst (fetch_and_process_games bad_months utc ''bob'' ''blitz'' new_session) =
     (None, Some ''No blitz games found for bob.'')"
proof -
  let ?body = "\<lparr>archives = None, games = None\<rparr>"
  let ?st1 = "\<lparr>profile_cache = [(''bob'', ?body)],
              request_log = [''https://api.chess.com/pub/player/bob'']\<rparr>"
  let ?st2 = "\<lparr>profile_cache = [(''bob'', ?body)],
              request_log = [''https://api.chess.com/pub/player/bob'',
                             ''https://api.chess.com/pub/player/bob/games/archives'']\<rparr>"
  have profile: "get_user_profile bad_months ''bob'' new_session = (Inr ?body, ?st1)"
    by (simp add: get_user_profile_def get_user_profile_body_def session_get_def new_session_def
        bad_months_def profile_url_def CHESS_API_BASE_def)
  have listing: "get_user_archives bad_months ''bob'' ?st1 = (Inr [(2024, 1)], ?st2)"
    by code_simp
  have failed: "fetch_failed (bad_months (month_url ''bob'' 2024 1))"
    "fetch_failed (bad_months (month_url ''bob'' 2024 2))"
    by code_simp+
  show ?thesis
    using period_fetch_tolerant [of no_such_user "''bob''" 2024 1 ?body "''blitz''" new_session
        404 "''x''" "[]" ?body new_session "[]" new_session utc]
      period_fetch_tolerant [of unreachable "''bob''" 2024 1 ?body "''blitz''" new_session
        404 "''Connection refused''" "[]" ?body new_session "[]" new_session utc]
      period_fetch_tolerant [of bad_months "''bob''" 2024 1 ?body "''blitz''" new_session
        500 "''x''" "[(''bob'', 2024, 1, ''blitz''), (''bob'', 2024, 2, ''blitz'')]"
        ?body ?st1 "[(2024, 1)]" ?st2 utc]
      profile listing failed
    by (simp add: no_such_user_def unreachable_def)
qed

text \<open>
  \<^bold>\<open>C8.\<close> (as amended) When the profile is not remembered and its lookup is answered with 404, the
  orchestrator returns no figure and the message \<^verbatim>\<open>User not found\<close> (with no full stop), and
  the profile request is the only request it has sent.
\<close>

theorem profile_not_found_aborts:
  assumes "map_of (profile_cache st) username = None"
    and "upstream (profile_url username) = Response 404 body"
  shows "fetch_and_process_games upstream utcoffset username tc st =
           ((None, Some ''User not found''),
            st\<lparr>request_log := request_log st @ [profile_url username]\<rparr>)"
  using assms
  by (simp add: fetch_and_process_games_def process_def get_user_profile_def
      get_user_profile_body_def session_get_def)

theorem profile_not_found_aborts_witness:
  "fetch_and_process_games no_such_user utc ''ghost'' ''blitz'' new_session =
     ((None, Some ''User not found''),
      new_session\<lparr>request_log := request_log new_session @ [profile_url ''ghost'']\<rparr>)"
  by (rule profile_not_found_aborts [where body = "\<lparr>archives = None, games = None\<rparr>"])
    (simp_all add: new_session_def no_such_user_def)

text \<open>As stated the claim fails on the text of the message, which has no full stop.\<close>

theorem profile_not_found_counterexample:
  "snd (fst (fetch_and_process_games no_such_user utc ''ghost'' ''blitz'' new_session))
     \<noteq> Some ''User not found.''"
  by (simp add: fetch_and_process_games_def process_def get_user_profile_def
      get_user_profile_body_def session_get_def new_session_def no_such_user_def)

section \<open>Properties of the extraction\<close>

lemma extract_rows_truthy:
  "extract_rows utcoffset ul gs = Inr data \<Longrightarrow>
   extract_rows utcoffset ul (filter (\<lambda>g. end_time g \<noteq> None \<and> end_time g \<noteq> Some 0) gs) = Inr data \<and>
   length data = length (filter (\<lambda>g. end_time g \<noteq> None \<and> end_time g \<noteq> Some 0) gs)"
proof (induction gs arbitrary: data)
  case Nil
  then show ?case by simp
next
  case (Cons g gs)
  from Cons.prems obtain row rest where row: "extract_row utcoffset ul g = Inr row"
    and rest: "extract_rows utcoffset ul gs = Inr rest"
    and data: "data = (case row of None \<Rightarrow> [] | Some r \<Rightarrow> [r]) @ rest"
    by (auto split: sum.splits)
  note IH = Cons.IH [OF rest]
  show ?case
  proof (cases "end_time g \<noteq> None \<and> end_time g \<noteq> Some 0")
    case True
    with row obtain r where "row = Some r"
      by (auto simp: extract_row_def Let_def split: option.splits sum.splits if_splits)
    with True row IH data show ?thesis by simp
  next
    case False
    with row have "row = None"
      by (auto simp: extract_row_def Let_def split: option.splits sum.splits if_splits)
    with False IH data show ?thesis by simp
  qed
qed

text \<open>
  \<^bold>\<open>C9.\<close> A record whose \<^verbatim>\<open>end_time\<close> is absent or 0 gives no row (or the \<^verbatim>\<open>KeyError\<close> of a missing
  player); a successful extraction has exactly one row per record with another
  \<^verbatim>\<open>end_time\<close>, and is unchanged when the records with an absent or zero \<^verbatim>\<open>end_time\<close> are
  removed from the input.
\<close>

theorem falsy_end_time_dropped:
  "(end_time g = None \<or> end_time g = Some 0 \<longrightarrow>
      extract_row utcoffset ul g = Inr None \<or> extract_row utcoffset ul g = Inl KeyError) \<and>
   (extract_game_data utcoffset gs u = Inr data \<longrightarrow>
      length data = length (filter (\<lambda>g. end_time g \<noteq> None \<and> end_time g \<noteq> Some 0) gs) \<and>
      extract_game_data utcoffset (filter (\<lambda>g. end_time g \<noteq> None \<and> end_time g \<noteq> Some 0) gs) u
        = Inr data)"
proof (intro conjI impI)
  assume "end_time g = None \<or> end_time g = Some 0"
  then show "extract_row utcoffset ul g = Inr None \<or> extract_row utcoffset ul g = Inl KeyError"
    by (auto simp: extract_row_def Let_def split: option.splits)
next
  assume ok: "extract_game_data utcoffset gs u = Inr data"
  let ?keep = "filter (\<lambda>g. end_time g \<noteq> None \<and> end_time g \<noteq> Some 0) gs"
  have rows: "extract_rows utcoffset (lower u) gs = Inr data"
    using ok by (cases gs) (simp_all add: extract_game_data_def)
  note kept = extract_rows_truthy [OF rows]
  show "length data = length ?keep" using kept by simp
  show "extract_game_data utcoffset ?keep u = Inr data"
    using kept by (auto simp: extract_game_data_def)
qed

theorem falsy_end_time_dropped_witness:
  "extract_row utc ''bob'' epoch_zero_game = Inr None \<and>
   extract_game_data utc [epoch_zero_game] ''Bob'' = Inr []"
  using falsy_end_time_dropped [of epoch_zero_game utc "''bob''" "[epoch_zero_game]" "''Bob''" "[]"]
  by (simp add: epoch_zero_game_def extract_row_def extract_game_data_def lower_def
      lower_char_def is_upper_def)

section \<open>Properties of the request handler\<close>

lemma SimpleCache_get_le:
  "SimpleCache_get now k c = (r, c1) \<Longrightarrow> cache c1 \<subseteq>\<^sub>m cache c"
  by (auto simp: SimpleCache_get_def map_le_def split: option.splits if_splits)

lemma fetch_and_render_error:
  "fetch_and_render env u tc key app = (Index_html err, app') \<Longrightarrow>
   result_cache app' = result_cache app"
  by (auto simp: fetch_and_render_def Let_def split: prod.splits option.splits if_splits)

text \<open>
  \<^bold>\<open>C10.\<close> When the handler renders \<^verbatim>\<open>index.html\<close> with an error, every entry of the result cache
  afterwards was already there, with the same value and insertion time: nothing was inserted.
\<close>

theorem cache_written_only_on_success:
  assumes "index env req app = (Index_html (Some err), app')"
  shows "cache (result_cache app') \<subseteq>\<^sub>m cache (result_cache app)"
proof (cases "http_method req = ''POST''")
  case False
  with assms show ?thesis by (simp add: index_def)
next
  case True
  show ?thesis
  proof (cases "form req ''username''")
    case None
    with assms True show ?thesis by (simp add: index_def)
  next
    case (Some raw_username)
    note user = this
    show ?thesis
    proof (cases "form req ''time_control''")
      case None
      with assms True user show ?thesis by (simp add: index_def)
    next
      case (Some raw_time_control)
      let ?u = "strip raw_username"
      let ?tc = "lower (strip raw_time_control)"
      let ?key = "?u @ ''_'' @ ?tc"
      obtain r c1 where get: "SimpleCache_get (time_at_get env) ?key (result_cache app) = (r, c1)"
        by (cases "SimpleCache_get (time_at_get env) ?key (result_cache app)") auto
      have le: "cache c1 \<subseteq>\<^sub>m cache (result_cache app)"
        using get by (rule SimpleCache_get_le)
      from assms True user Some get
      have "app' = app \<or>
            fetch_and_render env ?u ?tc ?key (app\<lparr>result_cache := c1\<rparr>) = (Index_html (Some err), app')"
        by (auto simp: index_def Let_def split: if_splits option.splits)
      then show ?thesis
      proof
        assume "app' = app"
        then show ?thesis by simp
      next
        assume "fetch_and_render env ?u ?tc ?key (app\<lparr>result_cache := c1\<rparr>) = (Index_html (Some err), app')"
        then have "result_cache app' = c1"
          by (auto dest: fetch_and_render_error)
        with le show ?thesis by simp
      qed
    qed
  qed
qed

theorem cache_written_only_on_success_witness:
  "fst (index ghost_env ghost_request new_app) = Index_html (Some ''User not found'') \<and>
   cache (result_cache (snd (index ghost_env ghost_request new_app)))
     \<subseteq>\<^sub>m cache (result_cache new_app)"
proof -
  have page: "fst (index ghost_env ghost_request new_app) = Index_html (Some ''User not found'')"
    by code_simp
  then have "index ghost_env ghost_request new_app =
      (Index_html (Some ''User not found''), snd (index ghost_env ghost_request new_app))"
    by (simp add: prod_eq_iff)
  then have "cache (result_cache (snd (index ghost_env ghost_request new_app)))
     \<subseteq>\<^sub>m cache (result_cache new_app)"
    by (rule cache_written_only_on_success)
  with page show ?thesis by simp
qed

end
